theory Spec2Isabelle
  imports Complex_Main "HOL-Library.Word" "HOL-Library.Multiset"
begin

unbundle bit_operations_syntax

section \<open>Strings and numbers of the host language\<close>

text \<open>
  A string is the sequence of its UTF-16 code units. Numbers are IEEE doubles in the
  source; they are idealised as reals here (no rounding error, no NaN, no infinities),
  and integer counters as \<open>nat\<close> or \<open>int\<close>.
\<close>

type_synonym jsstring = "16 word list"

definition str :: "string \<Rightarrow> jsstring" where
  "str s = map (\<lambda>c. of_nat (of_char c)) s"

text \<open>\<open>Array.prototype.join\<close> on strings.\<close>

fun join :: "jsstring \<Rightarrow> jsstring list \<Rightarrow> jsstring" where
  "join sep [] = []"
| "join sep [x] = x"
| "join sep (x # y # ys) = x @ sep @ join sep (y # ys)"

text \<open>\<open>String.prototype.includes\<close>: \<open>t\<close> occurs in \<open>s\<close> as a contiguous block.\<close>

fun str_includes :: "jsstring \<Rightarrow> jsstring \<Rightarrow> bool" where
  "str_includes [] t = (t = [])"
| "str_includes (c # s) t = (take (length t) (c # s) = t \<or> str_includes s t)"

text \<open>\<open>String.prototype.slice(0, n)\<close> for a non-negative \<open>n\<close>.\<close>

definition slice0 :: "nat \<Rightarrow> 'a list \<Rightarrow> 'a list" where
  "slice0 n s = take n s"

text \<open>\<open>String.prototype.padStart\<close>.\<close>

definition padStart :: "nat \<Rightarrow> jsstring \<Rightarrow> jsstring \<Rightarrow> jsstring" where
  "padStart targetLength padString s =
     (if targetLength \<le> length s \<or> padString = [] then s
      else take (targetLength - length s)
             (concat (replicate (targetLength - length s) padString)) @ s)"

text \<open>Digits. \<open>toString16\<close> is \<open>Number.prototype.toString(16)\<close> on a non-negative integer,
  \<open>decimal\<close> is the decimal form of a non-negative integer, \<open>int_str\<close> that of an integer.\<close>

definition hexDigit :: "nat \<Rightarrow> 16 word" where
  "hexDigit d = str ''0123456789abcdef'' ! d"

function toString16 :: "nat \<Rightarrow> jsstring" where
  "toString16 n = (if n < 16 then [hexDigit n] else toString16 (n div 16) @ [hexDigit (n mod 16)])"
  by pat_completeness auto
termination by (relation "measure id") auto

declare toString16.simps [simp del]

function decimal :: "nat \<Rightarrow> jsstring" where
  "decimal n = (if n < 10 then [hexDigit n] else decimal (n div 10) @ [hexDigit (n mod 10)])"
  by pat_completeness auto
termination by (relation "measure id") auto

declare decimal.simps [simp del]

definition int_str :: "int \<Rightarrow> jsstring" where
  "int_str i = (if i < 0 then str ''-'' @ decimal (nat (- i)) else decimal (nat i))"

text \<open>\<open>Math.round\<close> rounds to the nearest integer, a half towards plus infinity.\<close>

definition Math_round :: "real \<Rightarrow> real" where
  "Math_round x = of_int \<lfloor>x + 1 / 2\<rfloor>"

text \<open>
  \<open>Number.prototype.toFixed(digits)\<close> for magnitudes below \<open>10^21\<close> (above, the host
  switches to exponent notation, which is not modelled): the sign, then the integer \<open>n\<close>
  nearest to \<open>|x| * 10^digits\<close> (the larger one on a tie), printed with the point \<open>digits\<close>
  places from the right.
\<close>

definition toFixed :: "nat \<Rightarrow> real \<Rightarrow> jsstring" where
  "toFixed digits x =
     (let n = nat \<lfloor>\<bar>x\<bar> * 10 ^ digits + 1 / 2\<rfloor>;
          m = decimal (n div 10 ^ digits)
              @ (if digits = 0 then []
                 else str ''.'' @ padStart digits (str ''0'') (decimal (n mod 10 ^ digits)))
      in (if x < 0 then str ''-'' @ m else m))"

section \<open>Text processing\<close>

subsection \<open>Normalisation\<close>

text \<open>The character class \<open>INVISIBLE_CHARS\<close>.\<close>

definition INVISIBLE_CHARS :: "16 word \<Rightarrow> bool" where
  "INVISIBLE_CHARS c \<longleftrightarrow>
     (0x200B \<le> c \<and> c \<le> 0x200D) \<or> c = 0xFEFF \<or> c = 0x00AD \<or> c = 0x2060 \<or> c = 0x180E
     \<or> (0x202A \<le> c \<and> c \<le> 0x202E) \<or> (0x2066 \<le> c \<and> c \<le> 0x2069)"

text \<open>The class \<open>\s\<close> of regular expressions, which is also what \<open>trim\<close> strips:
  white space and line terminators.\<close>

definition is_space :: "16 word \<Rightarrow> bool" where
  "is_space c \<longleftrightarrow>
     (0x0009 \<le> c \<and> c \<le> 0x000D) \<or> c = 0x0020 \<or> c = 0x00A0 \<or> c = 0x1680
     \<or> (0x2000 \<le> c \<and> c \<le> 0x200A) \<or> c = 0x2028 \<or> c = 0x2029 \<or> c = 0x202F
     \<or> c = 0x205F \<or> c = 0x3000 \<or> c = 0xFEFF"

text \<open>\<open>replace(/\s+/g, " ")\<close>: every maximal run of white space becomes one space.\<close>

function collapse_ws :: "jsstring \<Rightarrow> jsstring" where
  "collapse_ws [] = []"
| "collapse_ws (c # cs) =
     (if is_space c then 0x20 # collapse_ws (dropWhile is_space cs) else c # collapse_ws cs)"
  by pat_completeness auto
termination
  by (relation "measure length") (auto simp: less_Suc_eq_le length_dropWhile_le)

definition trim :: "jsstring \<Rightarrow> jsstring" where
  "trim s = rev (dropWhile is_space (rev (dropWhile is_space s)))"

text \<open>
  \<open>toLowerCase\<close> on the Basic Latin and Latin-1 letters; code units of other scripts are
  left as they are (the host's full Unicode case mapping is not modelled).
\<close>

definition lower_unit :: "16 word \<Rightarrow> 16 word" where
  "lower_unit c =
     (if (0x41 \<le> c \<and> c \<le> 0x5A) \<or> (0xC0 \<le> c \<and> c \<le> 0xDE \<and> c \<noteq> 0xD7) then c + 0x20 else c)"

definition toLowerCase :: "jsstring \<Rightarrow> jsstring" where
  "toLowerCase s = map lower_unit s"

definition normalizeText :: "jsstring \<Rightarrow> jsstring" where
  "normalizeText t = toLowerCase (trim (collapse_ws (filter (\<lambda>c. \<not> INVISIBLE_CHARS c) t)))"

subsection \<open>The short digest\<close>

function djb2_loop :: "jsstring \<Rightarrow> nat \<Rightarrow> 32 word \<Rightarrow> 32 word" where
  "djb2_loop t i hash =
     (if i < length t
      then djb2_loop t (i + 1) ((push_bit 5 hash + hash) XOR ucast (t ! i))
      else hash)"
  by pat_completeness auto
termination by (relation "measure (\<lambda>(t, i, hash). length t - i)") auto

declare djb2_loop.simps [simp del]

definition djb2Hash :: "jsstring \<Rightarrow> jsstring" where
  "djb2Hash t = padStart 8 (str ''0'') (toString16 (unat (djb2_loop t 0 5381)))"

definition sha256Sync :: "jsstring \<Rightarrow> jsstring" where
  "sha256Sync t = djb2Hash t"

text \<open>The digest as the specification words it: a fold over the code units on the
  naturals, reduced modulo \<open>2^32\<close> at every step, printed as a fixed number of
  hexadecimal digits.\<close>

definition djb2_spec :: "jsstring \<Rightarrow> nat" where
  "djb2_spec s = fold (\<lambda>c h. ((push_bit 5 h + h) XOR unat c) mod 2 ^ 32) s 5381"

primrec hex_fixed :: "nat \<Rightarrow> nat \<Rightarrow> jsstring" where
  "hex_fixed 0 n = []"
| "hex_fixed (Suc k) n = hex_fixed k (n div 16) @ [hexDigit (n mod 16)]"

subsection \<open>Classification\<close>

datatype TextKind = TK_none | TK_short | TK_sentence | TK_paragraph | TK_mixed

record TextSignal =
  ts_hash :: "jsstring option"
  ts_len :: "nat option"
  ts_kind :: TextKind

definition TEXT_THRESHOLDS_SHORT :: nat where "TEXT_THRESHOLDS_SHORT = 20"
definition TEXT_THRESHOLDS_SENTENCE :: nat where "TEXT_THRESHOLDS_SENTENCE = 150"

definition classifyText :: "jsstring \<Rightarrow> TextKind" where
  "classifyText normalizedText =
     (let len = length normalizedText in
      if len = 0 then TK_none
      else if len \<le> TEXT_THRESHOLDS_SHORT then TK_short
      else if len \<le> TEXT_THRESHOLDS_SENTENCE then TK_sentence
      else TK_paragraph)"

text \<open>
  Matching \<open>/\n\s*\n/g\<close>. After a line feed, the greedy \<open>\s*\<close> takes the whole run of white
  space and gives characters back until a line feed follows: the match ends at the last
  line feed of that run. \<open>after_break cs\<close> is the rest of the input behind that line
  feed, if there is one; \<open>count_breaks\<close> counts the matches from left to right, each
  search starting where the previous match ended.
\<close>

fun after_break :: "jsstring \<Rightarrow> jsstring option" where
  "after_break [] = None"
| "after_break (c # cs) =
     (if is_space c
      then (case after_break cs of
              Some r \<Rightarrow> Some r
            | None \<Rightarrow> if c = 0x0A then Some cs else None)
      else None)"

lemma after_break_length: "after_break cs = Some r \<Longrightarrow> length r < Suc (length cs)"
  by (induction cs arbitrary: r) (auto split: if_splits option.splits simp: less_Suc_eq)

function count_breaks :: "jsstring \<Rightarrow> nat" where
  "count_breaks [] = 0"
| "count_breaks (c # cs) =
     (if c = 0x0A
      then (case after_break cs of
              Some r \<Rightarrow> Suc (count_breaks r)
            | None \<Rightarrow> count_breaks cs)
      else count_breaks cs)"
  by pat_completeness auto
termination
  by (relation "measure length") (auto dest: after_break_length)

definition isMixedContent :: "jsstring \<Rightarrow> bool" where
  "isMixedContent rawText = (let lineBreaks = count_breaks rawText in lineBreaks \<ge> 2)"

definition createTextSignalSync :: "jsstring \<Rightarrow> TextSignal" where
  "createTextSignalSync rawText =
     (let normalized = normalizeText rawText;
          len = length normalized
      in if len = 0 then \<lparr>ts_hash = None, ts_len = None, ts_kind = TK_none\<rparr>
         else \<lparr>ts_hash = Some (sha256Sync normalized),
               ts_len = Some len,
               ts_kind = (if isMixedContent rawText then TK_mixed else classifyText normalized)\<rparr>)"

section \<open>Grammar\<close>

datatype UIRole =
    PAGE | NAV | HEADER | FOOTER | SECTION | CARD' | LIST | TABLE
  | MODAL | TOAST | DROPDOWN
  | FORM | INPUT | BUTTON | LINK | CHECKBOX | RADIO | ICON
  | IMAGE | TEXT
  | PAGINATION
  | UNKNOWN

text \<open>At run time a role is the string of its name (\<open>CARD'\<close> stands for the role
  \<open>CARD\<close>, a name that the logic reserves).\<close>

fun role_str :: "UIRole \<Rightarrow> jsstring" where
  "role_str PAGE = str ''PAGE''"
| "role_str NAV = str ''NAV''"
| "role_str HEADER = str ''HEADER''"
| "role_str FOOTER = str ''FOOTER''"
| "role_str SECTION = str ''SECTION''"
| "role_str CARD' = str ''CARD''"
| "role_str LIST = str ''LIST''"
| "role_str TABLE = str ''TABLE''"
| "role_str MODAL = str ''MODAL''"
| "role_str TOAST = str ''TOAST''"
| "role_str DROPDOWN = str ''DROPDOWN''"
| "role_str FORM = str ''FORM''"
| "role_str INPUT = str ''INPUT''"
| "role_str BUTTON = str ''BUTTON''"
| "role_str LINK = str ''LINK''"
| "role_str CHECKBOX = str ''CHECKBOX''"
| "role_str RADIO = str ''RADIO''"
| "role_str ICON = str ''ICON''"
| "role_str IMAGE = str ''IMAGE''"
| "role_str TEXT = str ''TEXT''"
| "role_str PAGINATION = str ''PAGINATION''"
| "role_str UNKNOWN = str ''UNKNOWN''"

text \<open>\<open>BBox01\<close> is the tuple \<open>[x, y, w, h]\<close>; \<open>b0 \<dots> b3\<close> read its elements 0 to 3.\<close>

type_synonym BBox01 = "real \<times> real \<times> real \<times> real"

fun b0 :: "BBox01 \<Rightarrow> real" where "b0 (x, y, w, h) = x"
fun b1 :: "BBox01 \<Rightarrow> real" where "b1 (x, y, w, h) = y"
fun b2 :: "BBox01 \<Rightarrow> real" where "b2 (x, y, w, h) = w"
fun b3 :: "BBox01 \<Rightarrow> real" where "b3 (x, y, w, h) = h"

record ViewportMeta =
  w_px :: real
  h_px :: real
  aspect :: real
  scroll_y01 :: "real option"

record UINodeFlags =
  sticky :: "bool option"
  scrollable :: "bool option"
  repeated :: "bool option"

text \<open>
  A node: its own fields (\<open>NodeData\<close>, an optional field is an \<open>option\<close>) and its optional
  list of children. The field \<open>z\<close>, an integer bucket, is \<open>z_bucket\<close>; \<open>id\<close> is \<open>node_id\<close> and \<open>text\<close> is
  \<open>text_signal\<close>.
\<close>

record NodeData =
  node_id :: jsstring
  role :: UIRole
  semantic :: "jsstring option"
  name_hash :: "jsstring option"
  text_signal :: "TextSignal option"
  bbox :: BBox01
  z_bucket :: "int option"
  interactive :: bool
  enabled :: "bool option"
  visible :: bool
  focusable :: "bool option"
  flags :: "UINodeFlags option"

datatype UINode = UINode (props: NodeData) (children: "UINode list option")

record CompilerMeta =
  compiler_name :: jsstring
  compiler_version :: jsstring
  options_hash :: jsstring

record WebSketchCapture =
  version :: jsstring
  url :: jsstring
  timestamp_ms :: real
  viewport :: ViewportMeta
  compiler :: CompilerMeta
  root :: UINode

definition BBOX_QUANT_STEP :: real where "BBOX_QUANT_STEP = 0.001"

text \<open>A string in a condition is true when it is present and not empty.\<close>

fun truthy :: "jsstring option \<Rightarrow> bool" where
  "truthy None = False"
| "truthy (Some s) = (s \<noteq> [])"

text \<open>\<open>node.text?.hash\<close>\<close>

definition text_hash_of :: "UINode \<Rightarrow> jsstring option" where
  "text_hash_of node = (case text_signal (props node) of None \<Rightarrow> None | Some t \<Rightarrow> ts_hash t)"

section \<open>Node hashing\<close>

definition quantizeBbox :: "BBox01 \<Rightarrow> real \<Rightarrow> BBox01" where
  "quantizeBbox b step =
     (Math_round (b0 b / step) * step, Math_round (b1 b / step) * step,
      Math_round (b2 b / step) * step, Math_round (b3 b / step) * step)"

definition bboxToString :: "BBox01 \<Rightarrow> nat \<Rightarrow> jsstring" where
  "bboxToString b precision =
     join (str '','') (map (toFixed precision) [b0 b, b1 b, b2 b, b3 b])"

record NodeHashInput =
  hi_role :: jsstring
  hi_bbox :: jsstring
  hi_interactive :: bool
  hi_visible :: bool
  hi_enabled :: "bool option"
  hi_semantic :: "jsstring option"
  hi_text_hash :: "jsstring option"
  hi_name_hash :: "jsstring option"
  hi_z :: "int option"

definition nodeToHashInput :: "UINode \<Rightarrow> NodeHashInput" where
  "nodeToHashInput node =
     (let qbbox = quantizeBbox (bbox (props node)) BBOX_QUANT_STEP in
      \<lparr>hi_role = role_str (role (props node)),
       hi_bbox = bboxToString qbbox 3,
       hi_interactive = interactive (props node),
       hi_visible = visible (props node),
       hi_enabled = enabled (props node),
       hi_semantic = semantic (props node),
       hi_text_hash = text_hash_of node,
       hi_name_hash = name_hash (props node),
       hi_z = z_bucket (props node)\<rparr>)"

text \<open>\<open>HashOptions\<close>: every option may be left out; \<open>resolve_hash_options\<close> is the
  spread over \<open>DEFAULT_HASH_OPTIONS\<close>.\<close>

record HashOptions =
  includeText :: "bool option"
  includeName :: "bool option"
  includeZ :: "bool option"

record ResolvedHashOptions =
  r_includeText :: bool
  r_includeName :: bool
  r_includeZ :: bool

definition no_hash_options :: HashOptions where
  "no_hash_options = \<lparr>includeText = None, includeName = None, includeZ = None\<rparr>"

definition resolve_hash_options :: "HashOptions \<Rightarrow> ResolvedHashOptions" where
  "resolve_hash_options options =
     \<lparr>r_includeText = (case includeText options of None \<Rightarrow> True | Some v \<Rightarrow> v),
      r_includeName = (case includeName options of None \<Rightarrow> True | Some v \<Rightarrow> v),
      r_includeZ = (case includeZ options of None \<Rightarrow> False | Some v \<Rightarrow> v)\<rparr>"

definition bit_str :: "bool \<Rightarrow> jsstring" where
  "bit_str v = (if v then str ''1'' else str ''0'')"

definition hashNodeShallow :: "UINode \<Rightarrow> HashOptions \<Rightarrow> jsstring" where
  "hashNodeShallow node options =
     (let opts = resolve_hash_options options;
          input = nodeToHashInput node;
          parts = [str ''r:'' @ hi_role input,
                   str ''b:'' @ hi_bbox input,
                   str ''i:'' @ bit_str (hi_interactive input),
                   str ''v:'' @ bit_str (hi_visible input)]
            @ (case hi_enabled input of None \<Rightarrow> [] | Some e \<Rightarrow> [str ''e:'' @ bit_str e])
            @ (if truthy (hi_semantic input) then [str ''s:'' @ the (hi_semantic input)] else [])
            @ (if r_includeText opts \<and> truthy (hi_text_hash input)
               then [str ''t:'' @ slice0 16 (the (hi_text_hash input))] else [])
            @ (if r_includeName opts \<and> truthy (hi_name_hash input)
               then [str ''n:'' @ slice0 16 (the (hi_name_hash input))] else [])
            @ (case hi_z input of
                 None \<Rightarrow> []
               | Some zv \<Rightarrow> if r_includeZ opts then [str ''z:'' @ int_str zv] else [])
      in sha256Sync (join (str ''|'') parts))"

subsection \<open>Sorting with a comparator\<close>

text \<open>
  \<open>Array.prototype.sort\<close> with a comparator is stable: \<open>sort_by\<close> is the stable insertion
  sort, \<open>x\<close> being put before \<open>y\<close> when \<open>cmp x y \<le> 0\<close>. Every stable sort returns this
  list whenever the comparator orders the elements consistently.
\<close>

fun insert_by :: "('a \<Rightarrow> 'a \<Rightarrow> real) \<Rightarrow> 'a \<Rightarrow> 'a list \<Rightarrow> 'a list" where
  "insert_by cmp x [] = [x]"
| "insert_by cmp x (y # ys) = (if cmp x y \<le> 0 then x # y # ys else y # insert_by cmp x ys)"

definition sort_by :: "('a \<Rightarrow> 'a \<Rightarrow> real) \<Rightarrow> 'a list \<Rightarrow> 'a list" where
  "sort_by cmp xs = foldr (insert_by cmp) xs []"

lemma set_insert_by [simp]: "set (insert_by cmp x ys) = insert x (set ys)"
  by (induction ys) auto

lemma set_sort_by [simp]: "set (sort_by cmp xs) = set xs"
  by (induction xs) (simp_all add: sort_by_def)

text \<open>The comparator of the children: by \<open>y\<close>, two \<open>y\<close> no more than the quantisation
  step apart counting as equal, then by \<open>x\<close>.\<close>

definition childCompare :: "UINode \<Rightarrow> UINode \<Rightarrow> real" where
  "childCompare a b =
     (let yDiff = b1 (bbox (props a)) - b1 (bbox (props b)) in
      if \<bar>yDiff\<bar> > BBOX_QUANT_STEP then yDiff
      else b0 (bbox (props a)) - b0 (bbox (props b)))"

lemma size_child:
  "c \<in> set cs \<Longrightarrow> size c < size (UINode p (Some cs))"
  by (induction cs) auto

function hashNodeDeep :: "UINode \<Rightarrow> HashOptions \<Rightarrow> jsstring" where
  "hashNodeDeep node options =
     (let shallowHash = hashNodeShallow node options in
      case children node of
        None \<Rightarrow> shallowHash
      | Some cs \<Rightarrow>
          if length cs = 0 then shallowHash
          else
            let sortedChildren = sort_by childCompare cs;
                childHashes = map (\<lambda>child. hashNodeDeep child options) sortedChildren;
                combined = shallowHash @ str ''|c:['' @ join (str '','') childHashes @ str '']''
            in sha256Sync combined)"
  by pat_completeness auto
termination
proof (relation "measure (\<lambda>(node, options). size node)", goal_cases)
  case 1
  show ?case by simp
next
  case (2 node options shallowHash cs sortedChildren child)
  then have "child \<in> set cs" by simp
  moreover from 2 have "node = UINode (props node) (Some cs)" by (cases node) simp
  ultimately show ?case using size_child [of child cs "props node"] by simp
qed

declare hashNodeDeep.simps [simp del]

section \<open>Capture fingerprints\<close>

definition fingerprintCapture :: "WebSketchCapture \<Rightarrow> jsstring" where
  "fingerprintCapture capture =
     (let rootHash = hashNodeDeep (root capture) no_hash_options;
          aspectKey = toFixed 2 (aspect (viewport capture))
      in sha256Sync (rootHash @ str ''|a:'' @ aspectKey))"

definition fingerprintLayout :: "WebSketchCapture \<Rightarrow> jsstring" where
  "fingerprintLayout capture =
     (let rootHash = hashNodeDeep (root capture)
                       \<lparr>includeText = Some False, includeName = Some False, includeZ = None\<rparr>;
          aspectKey = toFixed 2 (aspect (viewport capture))
      in sha256Sync (rootHash @ str ''|a:'' @ aspectKey))"

section \<open>Similarity\<close>

definition bboxSimilarity :: "BBox01 \<Rightarrow> BBox01 \<Rightarrow> real" where
  "bboxSimilarity a b =
     (let x1 = max (b0 a) (b0 b);
          y1 = max (b1 a) (b1 b);
          x2 = min (b0 a + b2 a) (b0 b + b2 b);
          y2 = min (b1 a + b3 a) (b1 b + b3 b);
          intersection = max 0 (x2 - x1) * max 0 (y2 - y1);
          areaA = b2 a * b3 a;
          areaB = b2 b * b3 b;
          union = areaA + areaB - intersection
      in if union = 0 then 0 else intersection / union)"

text \<open>\<open>nodeSimilarity\<close> accumulates the pair \<open>(score, weights)\<close> signal by signal.\<close>

definition nodeSimilarity :: "UINode \<Rightarrow> UINode \<Rightarrow> real" where
  "nodeSimilarity a b =
     (let score = 0; weights = 0;
          score = (if role (props a) = role (props b) then score + 3 else score);
          weights = weights + 3;
          bboxSim = bboxSimilarity (bbox (props a)) (bbox (props b));
          score = score + bboxSim * 2;
          weights = weights + 2;
          score = (if interactive (props a) = interactive (props b) then score + 1 else score);
          weights = weights + 1;
          sem_match = (truthy (semantic (props a)) \<and> truthy (semantic (props b))
                       \<and> semantic (props a) = semantic (props b));
          score = (if sem_match then score + 2 else score);
          weights = (if \<not> sem_match \<and> (truthy (semantic (props a)) \<or> truthy (semantic (props b)))
                     then weights + 2 else weights);
          score = (if truthy (text_hash_of a) \<and> truthy (text_hash_of b)
                      \<and> text_hash_of a = text_hash_of b
                   then score + 1 else score);
          weights = weights + 1
      in score / weights)"

section \<open>Example values and relations between captures\<close>

text \<open>The builders of the test fixtures: a node with the default fields, a capture
  with the fixed metadata.\<close>

definition makeNode :: "UIRole \<Rightarrow> BBox01 \<Rightarrow> NodeData" where
  "makeNode r b =
     \<lparr>node_id = [], role = r, semantic = None, name_hash = None, text_signal = None,
      bbox = b, z_bucket = None, interactive = False, enabled = None, visible = True,
      focusable = None, flags = None\<rparr>"

definition makeCapture :: "UINode \<Rightarrow> WebSketchCapture" where
  "makeCapture r =
     \<lparr>version = str ''0.1'', url = str ''https://example.com'', timestamp_ms = 1700000000000,
      viewport = \<lparr>w_px = 1920, h_px = 1080, aspect = 1920 / 1080, scroll_y01 = None\<rparr>,
      compiler = \<lparr>compiler_name = str ''websketch-ir'', compiler_version = str ''0.2.1'',
                  options_hash = str ''test''\<rparr>,
      root = r\<rparr>"


text \<open>
  \<open>map_props g\<close> rewrites the own fields of every node of a tree by \<open>g\<close>. Two instances:
  \<open>drop_empty_props\<close> turns an empty-string \<open>semantic\<close>, \<open>name_hash\<close> or \<open>text.hash\<close> into
  an absent one; \<open>erase_text_name_props\<close> forgets \<open>name_hash\<close> and \<open>text.hash\<close>, so that
  two captures differ only in those fields exactly when they agree after erasing them.
\<close>

fun map_props :: "(NodeData \<Rightarrow> NodeData) \<Rightarrow> UINode \<Rightarrow> UINode" where
  "map_props g (UINode p cs) = UINode (g p) (map_option (map (map_props g)) cs)"

definition absent_if_empty :: "jsstring option \<Rightarrow> jsstring option" where
  "absent_if_empty v = (if v = Some [] then None else v)"

definition drop_empty_props :: "NodeData \<Rightarrow> NodeData" where
  "drop_empty_props p =
     p\<lparr>semantic := absent_if_empty (semantic p),
       name_hash := absent_if_empty (name_hash p),
       text_signal := map_option (\<lambda>t. t\<lparr>ts_hash := absent_if_empty (ts_hash t)\<rparr>) (text_signal p)\<rparr>"

definition erase_text_name_props :: "NodeData \<Rightarrow> NodeData" where
  "erase_text_name_props p =
     p\<lparr>name_hash := None,
       text_signal := map_option (\<lambda>t. t\<lparr>ts_hash := None\<rparr>) (text_signal p)\<rparr>"

definition differ_only_in_text_name :: "WebSketchCapture \<Rightarrow> WebSketchCapture \<Rightarrow> bool" where
  "differ_only_in_text_name a b \<longleftrightarrow>
     map_props erase_text_name_props (root a) = map_props erase_text_name_props (root b)
     \<and> a\<lparr>root := root b\<rparr> = b"


text \<open>A text node whose \<open>text.hash\<close> is \<open>h\<close>, alone on a page.\<close>

definition textCapture :: "jsstring \<Rightarrow> WebSketchCapture" where
  "textCapture h =
     makeCapture (UINode ((makeNode TEXT (0.1, 0.1, 0.3, 0.05))
       \<lparr>text_signal := Some \<lparr>ts_hash = Some h, ts_len = Some 5, ts_kind = TK_short\<rparr>\<rparr>) None)"

text \<open>The button of the similarity tests: interactive, with a semantic hint.\<close>

definition submitButton :: UINode where
  "submitButton =
     UINode ((makeNode BUTTON (0.1, 0.2, 0.3, 0.4))
       \<lparr>interactive := True, semantic := Some (str ''submit'')\<rparr>) None"

section \<open>Consistent comparators and reordered siblings\<close>










section \<open>Diff engine\<close>












subsection \<open>Flattening\<close>

record FlatNode =
  fn_node :: UINode
  fn_depth :: nat
  fn_path :: jsstring
  fn_hash :: jsstring

text \<open>\<open>flattenChildren\<close> is the loop over the children, \<open>i\<close> the index of the first one.\<close>

fun flattenTree :: "UINode \<Rightarrow> nat \<Rightarrow> jsstring \<Rightarrow> FlatNode list"
  and flattenChildren :: "UINode list \<Rightarrow> nat \<Rightarrow> nat \<Rightarrow> jsstring \<Rightarrow> FlatNode list" where
  "flattenTree (UINode p cs) depth path =
     (let currentPath = (if path \<noteq> [] then path @ str ''/'' @ role_str (role p)
                         else role_str (role p));
          hash = hashNodeShallow (UINode p cs) no_hash_options
      in \<lparr>fn_node = UINode p cs, fn_depth = depth, fn_path = currentPath, fn_hash = hash\<rparr>
         # (case cs of None \<Rightarrow> [] | Some l \<Rightarrow> flattenChildren l 0 depth currentPath))"
| "flattenChildren [] i depth currentPath = []"
| "flattenChildren (child # rest) i depth currentPath =
     flattenTree child (depth + 1) (currentPath @ str ''['' @ decimal i @ str '']'')
     @ flattenChildren rest (i + 1) depth currentPath"

fun countNodes :: "UINode \<Rightarrow> nat" and countChildren :: "UINode list \<Rightarrow> nat" where
  "countNodes (UINode p cs) = 1 + (case cs of None \<Rightarrow> 0 | Some l \<Rightarrow> countChildren l)"
| "countChildren [] = 0"
| "countChildren (child # rest) = countNodes child + countChildren rest"

subsection \<open>Matching\<close>







subsection \<open>Change detection\<close>














subsection \<open>The diff\<close>


subsection \<open>Orders on the candidates\<close>




definition diag_set :: "(nat \<times> nat \<times> real) list \<Rightarrow> nat set" where
  "diag_set L = {i. \<exists>s. (i, i, s) \<in> set L}"


section \<open>Validation and parsing\<close>

text \<open>
  A parsed JSON value. An object is the list of its members in order, and reading a
  property finds the first member of that name (\<open>None\<close> is \<open>undefined\<close>).
\<close>

datatype json =
    JNull
  | JBool bool
  | JNum real
  | JStr jsstring
  | JArr "json list"
  | JObj "(jsstring \<times> json) list"

definition prop_of :: "(jsstring \<times> json) list \<Rightarrow> string \<Rightarrow> json option" where
  "prop_of ms k = map_of ms (str k)"

datatype WebSketchErrorCode =
    WS_INVALID_JSON
  | WS_INVALID_CAPTURE
  | WS_INVALID_ARGS
  | WS_UNSUPPORTED_VERSION
  | WS_LIMIT_EXCEEDED
  | WS_NOT_FOUND
  | WS_PERMISSION_DENIED
  | WS_IO_ERROR
  | WS_INTERNAL

record WebSketchValidationIssue =
  i_path :: jsstring
  i_expected :: jsstring
  i_received :: jsstring
  i_message :: jsstring

text \<open>The error envelope; \<open>e_issues\<close> is present on the validation variant.\<close>

record WebSketchError =
  e_code :: WebSketchErrorCode
  e_message :: jsstring
  e_details :: "jsstring option"
  e_path :: "jsstring option"
  e_expected :: "jsstring option"
  e_received :: "jsstring option"
  e_hint :: "jsstring option"
  e_cause :: "(jsstring \<times> jsstring) option"
  e_issues :: "WebSketchValidationIssue list option"

text \<open>The limits are integers here.\<close>

record WebSketchLimits =
  maxNodes :: int
  maxDepth :: int
  maxStringLength :: int

record PartialLimits =
  opt_maxNodes :: "int option"
  opt_maxDepth :: "int option"
  opt_maxStringLength :: "int option"

definition DEFAULT_LIMITS :: WebSketchLimits where
  "DEFAULT_LIMITS = \<lparr>maxNodes = 10000, maxDepth = 50, maxStringLength = 10000\<rparr>"

definition no_limits :: PartialLimits where
  "no_limits = \<lparr>opt_maxNodes = None, opt_maxDepth = None, opt_maxStringLength = None\<rparr>"

definition resolve_limits :: "PartialLimits \<Rightarrow> WebSketchLimits" where
  "resolve_limits limits =
     \<lparr>maxNodes = (case opt_maxNodes limits of None \<Rightarrow> maxNodes DEFAULT_LIMITS | Some v \<Rightarrow> v),
      maxDepth = (case opt_maxDepth limits of None \<Rightarrow> maxDepth DEFAULT_LIMITS | Some v \<Rightarrow> v),
      maxStringLength =
        (case opt_maxStringLength limits of None \<Rightarrow> maxStringLength DEFAULT_LIMITS | Some v \<Rightarrow> v)\<rparr>"

definition VALID_ROLES :: "jsstring list" where
  "VALID_ROLES =
     map role_str
       [PAGE, NAV, HEADER, FOOTER, SECTION, CARD', LIST, TABLE, MODAL, TOAST, DROPDOWN,
        FORM, INPUT, BUTTON, LINK, CHECKBOX, RADIO, ICON, IMAGE, TEXT, PAGINATION, UNKNOWN]"

definition dquote :: jsstring where
  "dquote = [0x22]"

fun typeOf :: "json option \<Rightarrow> jsstring" where
  "typeOf None = str ''undefined''"
| "typeOf (Some JNull) = str ''null''"
| "typeOf (Some (JArr a)) = str ''array''"
| "typeOf (Some (JBool b)) = str ''boolean''"
| "typeOf (Some (JNum n)) = str ''number''"
| "typeOf (Some (JStr s)) = str ''string''"
| "typeOf (Some (JObj ms)) = str ''object''"

definition issue :: "jsstring \<Rightarrow> jsstring \<Rightarrow> jsstring \<Rightarrow> jsstring \<Rightarrow> WebSketchValidationIssue" where
  "issue p e r m = \<lparr>i_path = p, i_expected = e, i_received = r, i_message = m\<rparr>"

fun is_string :: "json option \<Rightarrow> bool" where
  "is_string (Some (JStr s)) = True"
| "is_string v = False"

fun is_number :: "json option \<Rightarrow> bool" where
  "is_number (Some (JNum n)) = True"
| "is_number v = False"

fun is_boolean :: "json option \<Rightarrow> bool" where
  "is_boolean (Some (JBool b)) = True"
| "is_boolean v = False"

text \<open>The checks of one node object other than its children, in the order of the
  source: role, bbox, interactive, visible, id, text.\<close>

definition role_issues :: "(jsstring \<times> json) list \<Rightarrow> jsstring \<Rightarrow> WebSketchValidationIssue list" where
  "role_issues node p =
     (case prop_of node ''role'' of
        Some (JStr r) \<Rightarrow>
          if r \<in> set VALID_ROLES then []
          else [issue (p @ str ''.role'')
                  (str ''one of ['' @ join (str '', '') VALID_ROLES @ str '']'')
                  (dquote @ r @ dquote)
                  (str ''Invalid UI role: '' @ dquote @ r @ dquote)]
      | v \<Rightarrow> [issue (p @ str ''.role'') (str ''string (UIRole)'') (typeOf v)
                 (str ''Node role is required and must be a string'')])"

definition bbox_issues :: "(jsstring \<times> json) list \<Rightarrow> jsstring \<Rightarrow> WebSketchValidationIssue list" where
  "bbox_issues node p =
     (case prop_of node ''bbox'' of
        Some (JArr b) \<Rightarrow>
          if length b \<noteq> 4
          then [issue (p @ str ''.bbox'') (str ''array of 4 numbers'')
                  (str ''array of '' @ decimal (length b))
                  (str ''Node bbox must have exactly 4 elements'')]
          else concat (map (\<lambda>i.
                 if is_number (Some (b ! i)) then []
                 else [issue (p @ str ''.bbox['' @ decimal i @ str '']'') (str ''number'')
                         (typeOf (Some (b ! i)))
                         (str ''bbox element '' @ decimal i @ str '' must be a number'')])
               [0..<4])
      | v \<Rightarrow> [issue (p @ str ''.bbox'') (str ''array of 4 numbers'') (typeOf v)
                 (str ''Node bbox is required and must be an array'')])"

definition text_issues :: "(jsstring \<times> json) list \<Rightarrow> jsstring \<Rightarrow> WebSketchValidationIssue list" where
  "text_issues node p =
     (case prop_of node ''text'' of
        None \<Rightarrow> []
      | Some (JObj t) \<Rightarrow>
          if is_string (prop_of t ''kind'') then []
          else [issue (p @ str ''.text.kind'') (str ''string (TextKind)'')
                  (typeOf (prop_of t ''kind'')) (str ''TextSignal kind is required'')]
      | v \<Rightarrow> [issue (p @ str ''.text'') (str ''TextSignal object'') (typeOf v)
                 (str ''Node text must be a TextSignal object'')])"

definition own_issues :: "(jsstring \<times> json) list \<Rightarrow> jsstring \<Rightarrow> WebSketchValidationIssue list" where
  "own_issues node p =
     role_issues node p
     @ bbox_issues node p
     @ (if is_boolean (prop_of node ''interactive'') then []
        else [issue (p @ str ''.interactive'') (str ''boolean'')
                (typeOf (prop_of node ''interactive''))
                (str ''Node interactive is required and must be a boolean'')])
     @ (if is_boolean (prop_of node ''visible'') then []
        else [issue (p @ str ''.visible'') (str ''boolean'') (typeOf (prop_of node ''visible''))
                (str ''Node visible is required and must be a boolean'')])
     @ (if is_string (prop_of node ''id'') then []
        else [issue (p @ str ''.id'') (str ''string'') (typeOf (prop_of node ''id''))
                (str ''Node id is required and must be a string'')])
     @ text_issues node p"

lemma size_map_of:
  "map_of ms k = Some v \<Longrightarrow> size v < size (JObj ms)"
  by (induction ms) (auto split: if_splits)

text \<open>
  \<open>validateNode\<close> threads the node counter and the list of issues; \<open>validateChildren\<close> is
  its loop over the children from index \<open>i\<close>, which stops once more than 100 issues are
  collected.
\<close>

function validateNode ::
    "json \<Rightarrow> jsstring \<Rightarrow> nat \<Rightarrow> WebSketchLimits \<Rightarrow> nat \<times> WebSketchValidationIssue list
     \<Rightarrow> nat \<times> WebSketchValidationIssue list"
  and validateChildren ::
    "json list \<Rightarrow> nat \<Rightarrow> jsstring \<Rightarrow> nat \<Rightarrow> WebSketchLimits
     \<Rightarrow> nat \<times> WebSketchValidationIssue list \<Rightarrow> nat \<times> WebSketchValidationIssue list" where
  "validateNode data p depth limits st =
     (let nodeCount = fst st + 1; issues = snd st in
      if int nodeCount > maxNodes limits
      then (nodeCount,
            issues @ [issue p (str ''<= '' @ int_str (maxNodes limits) @ str '' nodes'')
                        (decimal nodeCount @ str ''+'')
                        (str ''Node count exceeds maxNodes limit ('' @ int_str (maxNodes limits)
                           @ str '')'')])
      else if int depth > maxDepth limits
      then (nodeCount,
            issues @ [issue p (str ''depth <= '' @ int_str (maxDepth limits))
                        (str ''depth '' @ decimal depth)
                        (str ''Tree depth exceeds maxDepth limit ('' @ int_str (maxDepth limits)
                           @ str '')'')])
      else
        case data of
          JObj node \<Rightarrow>
            (case prop_of node ''children'' of
               None \<Rightarrow> (nodeCount, issues @ own_issues node p)
             | Some (JArr cs) \<Rightarrow>
                 validateChildren cs 0 p depth limits (nodeCount, issues @ own_issues node p)
             | Some v \<Rightarrow>
                 (nodeCount,
                  issues @ own_issues node p
                  @ [issue (p @ str ''.children'') (str ''array'') (typeOf (Some v))
                       (str ''Node children must be an array'')]))
        | _ \<Rightarrow> (nodeCount,
                issues @ [issue p (str ''object'') (typeOf (Some data))
                            (str ''Node must be an object'')]))"
| "validateChildren [] i p depth limits st = st"
| "validateChildren (c # cs) i p depth limits st =
     (let st' = validateNode c (p @ str ''.children['' @ decimal i @ str '']'') (depth + 1) limits st
      in if length (snd st') > 100 then st'
         else validateChildren cs (i + 1) p depth limits st')"
  by pat_completeness auto
termination
proof (relation "measure (\<lambda>x. case x of
          Inl (data, p, depth, limits, st) \<Rightarrow> size data
        | Inr (cs, i, p, depth, limits, st) \<Rightarrow> size_list size cs)", goal_cases)
  case 1
  show ?case by simp
next
  case (2 data p depth limits st nodeCount issues node v cs)
  then have "size (JArr cs) < size (JObj node)"
    by (auto simp: prop_of_def dest: size_map_of)
  with 2 show ?case by simp
next
  case 3
  then show ?case by simp
next
  case 4
  then show ?case by simp
qed


definition viewport_issues :: "(jsstring \<times> json) list \<Rightarrow> WebSketchValidationIssue list" where
  "viewport_issues obj =
     (case prop_of obj ''viewport'' of
        Some (JObj vp) \<Rightarrow>
          (if is_number (prop_of vp ''w_px'') then []
           else [issue (str ''viewport.w_px'') (str ''number'') (typeOf (prop_of vp ''w_px''))
                   (str ''Viewport w_px is required'')])
          @ (if is_number (prop_of vp ''h_px'') then []
             else [issue (str ''viewport.h_px'') (str ''number'') (typeOf (prop_of vp ''h_px''))
                     (str ''Viewport h_px is required'')])
          @ (if is_number (prop_of vp ''aspect'') then []
             else [issue (str ''viewport.aspect'') (str ''number'')
                     (typeOf (prop_of vp ''aspect'')) (str ''Viewport aspect is required'')])
      | v \<Rightarrow> [issue (str ''viewport'') (str ''ViewportMeta object'') (typeOf v)
                 (str ''Capture viewport is required'')])"

definition compiler_issues :: "(jsstring \<times> json) list \<Rightarrow> WebSketchValidationIssue list" where
  "compiler_issues obj =
     (case prop_of obj ''compiler'' of
        Some (JObj cm) \<Rightarrow>
          (if is_string (prop_of cm ''name'') then []
           else [issue (str ''compiler.name'') (str ''string'') (typeOf (prop_of cm ''name''))
                   (str ''Compiler name is required'')])
          @ (if is_string (prop_of cm ''version'') then []
             else [issue (str ''compiler.version'') (str ''string'')
                     (typeOf (prop_of cm ''version'')) (str ''Compiler version is required'')])
          @ (if is_string (prop_of cm ''options_hash'') then []
             else [issue (str ''compiler.options_hash'') (str ''string'')
                     (typeOf (prop_of cm ''options_hash''))
                     (str ''Compiler options_hash is required'')])
      | v \<Rightarrow> [issue (str ''compiler'') (str ''CompilerMeta object'') (typeOf v)
                 (str ''Capture compiler is required'')])"

definition version_issues :: "(jsstring \<times> json) list \<Rightarrow> WebSketchValidationIssue list" where
  "version_issues obj =
     (case prop_of obj ''version'' of
        Some (JStr v) \<Rightarrow>
          if v \<noteq> str ''0.1''
          then [issue (str ''version'') (dquote @ str ''0.1'' @ dquote) (dquote @ v @ dquote)
                  (str ''Unsupported version: '' @ dquote @ v @ dquote)]
          else []
      | v \<Rightarrow> [issue (str ''version'') (dquote @ str ''0.1'' @ dquote) (typeOf v)
                 (str ''Capture version is required'')])"

definition root_issues ::
  "(jsstring \<times> json) list \<Rightarrow> WebSketchLimits \<Rightarrow> WebSketchValidationIssue list" where
  "root_issues obj resolvedLimits =
     (case prop_of obj ''root'' of
        None \<Rightarrow> [issue (str ''root'') (str ''UINode object'') (typeOf None)
                   (str ''Capture root node is required'')]
      | Some JNull \<Rightarrow> [issue (str ''root'') (str ''UINode object'') (typeOf (Some JNull))
                         (str ''Capture root node is required'')]
      | Some r \<Rightarrow> snd (validateNode r (str ''root'') 0 resolvedLimits (0, [])))"

definition validateCapture :: "json \<Rightarrow> PartialLimits \<Rightarrow> WebSketchValidationIssue list" where
  "validateCapture data limits =
     (let resolvedLimits = resolve_limits limits in
      case data of
        JObj obj \<Rightarrow>
          version_issues obj
          @ (if is_string (prop_of obj ''url'') then []
             else [issue (str ''url'') (str ''string'') (typeOf (prop_of obj ''url''))
                     (str ''Capture url is required'')])
          @ (if is_number (prop_of obj ''timestamp_ms'') then []
             else [issue (str ''timestamp_ms'') (str ''number'')
                     (typeOf (prop_of obj ''timestamp_ms''))
                     (str ''Capture timestamp_ms is required'')])
          @ viewport_issues obj
          @ compiler_issues obj
          @ root_issues obj resolvedLimits
      | _ \<Rightarrow> [issue [] (str ''object'') (typeOf (Some data)) (str ''Capture must be an object'')])"

text \<open>
  \<open>parseCapture\<close>. The host's \<open>JSON.parse\<close> is a parameter: it returns the parsed value
  or the name and the message of the error it throws. A thrown \<open>WebSketchException\<close> is the
  left summand, carrying its error envelope.
\<close>

definition is_version_issue :: "WebSketchValidationIssue \<Rightarrow> bool" where
  "is_version_issue i \<longleftrightarrow> i_path i = str ''version'' \<and> i_received i \<noteq> str ''undefined''"

definition is_limit_issue :: "WebSketchValidationIssue \<Rightarrow> bool" where
  "is_limit_issue i \<longleftrightarrow>
     str_includes (i_message i) (str ''exceeds maxNodes'')
     \<or> str_includes (i_message i) (str ''exceeds maxDepth'')"

text \<open>The first throw of \<open>parseCapture\<close>: the error for a version issue, if it throws one.\<close>

definition version_error :: "WebSketchValidationIssue list \<Rightarrow> WebSketchError option" where
  "version_error issues =
     (case List.find is_version_issue issues of
        Some versionIssue \<Rightarrow>
          if i_received versionIssue \<noteq> dquote @ str ''0.1'' @ dquote
          then Some \<lparr>e_code = WS_UNSUPPORTED_VERSION,
                 e_message = str ''Unsupported capture version: '' @ i_received versionIssue,
                 e_details = None, e_path = None,
                 e_expected = Some (dquote @ str ''0.1'' @ dquote),
                 e_received = Some (i_received versionIssue),
                 e_hint = Some (str ''This version of websketch-ir only supports version 0.1 captures.''),
                 e_cause = None, e_issues = None\<rparr>
          else None
      | None \<Rightarrow> None)"

definition parseCapture ::
  "(jsstring \<Rightarrow> (jsstring \<times> jsstring) + json) \<Rightarrow> jsstring \<Rightarrow> PartialLimits
   \<Rightarrow> WebSketchError + json" where
  "parseCapture JSON_parse json_text limits =
     (case JSON_parse json_text of
        Inl err \<Rightarrow>
          Inl \<lparr>e_code = WS_INVALID_JSON, e_message = str ''Failed to parse JSON'',
               e_details = Some (snd err), e_path = None, e_expected = None, e_received = None,
               e_hint = Some (str ''Ensure the input is valid JSON. Check for trailing commas, unquoted keys, or missing brackets.''),
               e_cause = Some err, e_issues = None\<rparr>
      | Inr data \<Rightarrow>
          let issues = validateCapture data limits in
          if length issues > 0 then
            (case version_error issues of
               Some e \<Rightarrow> Inl e
             | None \<Rightarrow>
                (case List.find is_limit_issue issues of
                   Some limitIssue \<Rightarrow>
                     Inl \<lparr>e_code = WS_LIMIT_EXCEEDED, e_message = i_message limitIssue,
                          e_details = None, e_path = Some (i_path limitIssue),
                          e_expected = Some (i_expected limitIssue),
                          e_received = Some (i_received limitIssue),
                          e_hint = Some (str ''The capture exceeds configured resource limits. Try increasing limits or reducing capture complexity.''),
                          e_cause = None, e_issues = None\<rparr>
                 | None \<Rightarrow>
                     Inl \<lparr>e_code = WS_INVALID_CAPTURE,
                          e_message = str ''Invalid capture: '' @ decimal (length issues)
                            @ str '' validation issue''
                            @ (if length issues > 1 then str ''s'' else []) @ str '' found'',
                          e_details = Some (join (str ''; '')
                            (map (\<lambda>i. i_path i @ str '': '' @ i_message i) (take 5 issues))),
                          e_path = None, e_expected = None, e_received = None,
                          e_hint = Some (str ''Check the capture JSON against the WebSketchCapture schema.''),
                          e_cause = None, e_issues = Some issues\<rparr>))
          else Inr data)"

declare validateNode.simps [simp del]

subsection \<open>Notions for the claims about parsing\<close>

text \<open>
  \<open>version_present_unsupported d\<close>: the value is an object that has a \<open>version\<close> member
  which is not the string \<open>0.1\<close>. \<open>result_code\<close> is the code of the error \<open>parseCapture\<close>
  fails with, if it fails. \<open>parsed_as d\<close> is a \<open>JSON.parse\<close> that returns \<open>d\<close>, and
  \<open>stringify_as t\<close> a \<open>JSON.stringify\<close> that returns \<open>t\<close>. \<open>below_path p i\<close>: the path of the
  issue extends \<open>p\<close>.
\<close>

fun version_present_unsupported :: "json \<Rightarrow> bool" where
  "version_present_unsupported (JObj obj) =
     (case prop_of obj ''version'' of None \<Rightarrow> False | Some v \<Rightarrow> v \<noteq> JStr (str ''0.1''))"
| "version_present_unsupported d = False"

fun result_code :: "WebSketchError + json \<Rightarrow> WebSketchErrorCode option" where
  "result_code (Inl e) = Some (e_code e)"
| "result_code (Inr d) = None"

definition parsed_as :: "json \<Rightarrow> jsstring \<Rightarrow> (jsstring \<times> jsstring) + json" where
  "parsed_as d t = Inr d"

definition below_path :: "jsstring \<Rightarrow> WebSketchValidationIssue \<Rightarrow> bool" where
  "below_path p i \<longleftrightarrow> take (length p) (i_path i) = p"




text \<open>A valid capture as a parsed value: the members behind \<open>version\<close>, and the whole.\<close>

definition sample_members :: "(jsstring \<times> json) list" where
  "sample_members =
     [(str ''url'', JStr (str ''https://example.com'')),
      (str ''timestamp_ms'', JNum 1700000000000),
      (str ''viewport'', JObj [(str ''w_px'', JNum 1600), (str ''h_px'', JNum 1000),
                               (str ''aspect'', JNum 1.6)]),
      (str ''compiler'', JObj [(str ''name'', JStr (str ''websketch-ir'')),
                               (str ''version'', JStr (str ''0.2.1'')),
                               (str ''options_hash'', JStr (str ''test''))]),
      (str ''root'', JObj [(str ''id'', JStr []),
                           (str ''role'', JStr (str ''PAGE'')),
                           (str ''bbox'', JArr [JNum 0, JNum 0, JNum 1, JNum 1]),
                           (str ''interactive'', JBool False),
                           (str ''visible'', JBool True)])]"


text \<open>The text of the sample, \<open>version_member\<close> being the text of its first member.\<close>

definition sample_text :: "jsstring \<Rightarrow> jsstring" where
  "sample_text version_member =
     str ''{'' @ version_member @
     dquote @ str ''url'' @ dquote @ str '':'' @ dquote @ str ''https://example.com'' @
     dquote @ str '','' @ dquote @ str ''timestamp_ms'' @ dquote @
     str '':1700000000000,'' @ dquote @ str ''viewport'' @ dquote @ str '':{'' @ dquote @
     str ''w_px'' @ dquote @ str '':1600,'' @ dquote @ str ''h_px'' @ dquote @
     str '':1000,'' @ dquote @ str ''aspect'' @ dquote @ str '':1.6},'' @ dquote @
     str ''compiler'' @ dquote @ str '':{'' @ dquote @ str ''name'' @ dquote @ str '':'' @
     dquote @ str ''websketch-ir'' @ dquote @ str '','' @ dquote @ str ''version'' @
     dquote @ str '':'' @ dquote @ str ''0.2.1'' @ dquote @ str '','' @ dquote @
     str ''options_hash'' @ dquote @ str '':'' @ dquote @ str ''test'' @ dquote @
     str ''},'' @ dquote @ str ''root'' @ dquote @ str '':{'' @ dquote @ str ''id'' @
     dquote @ str '':'' @ dquote @ dquote @ str '','' @ dquote @ str ''role'' @ dquote @
     str '':'' @ dquote @ str ''PAGE'' @ dquote @ str '','' @ dquote @ str ''bbox'' @
     dquote @ str '':[0,0,1,1],'' @ dquote @ str ''interactive'' @ dquote @
     str '':false,'' @ dquote @ str ''visible'' @ dquote @ str '':true}}''"

definition version_member :: "jsstring \<Rightarrow> jsstring" where
  "version_member v = dquote @ str ''version'' @ dquote @ str '':'' @ v @ str '',''"

text \<open>The same capture with another version, with a number as version, without version.\<close>

definition sample_version99 :: json where
  "sample_version99 = JObj ((str ''version'', JStr (str ''99.0'')) # sample_members)"

definition sample_version_number :: json where
  "sample_version_number = JObj ((str ''version'', JNum 2) # sample_members)"

definition sample_no_version :: json where
  "sample_no_version = JObj sample_members"


section \<open>The short digest is the fold of the specification\<close>

lemma djb2_loop_fold:
  "djb2_loop t i h = fold (\<lambda>c h. (push_bit 5 h + h) XOR ucast c) (drop i t) h"
proof (induction t i h rule: djb2_loop.induct)
  case (1 t i hash)
  show ?case
  proof (cases "i < length t")
    case True
    then have "drop i t = t ! i # drop (i + 1) t"
      by (simp add: Cons_nth_drop_Suc)
    with True 1 show ?thesis
      by (subst djb2_loop.simps) simp
  next
    case False
    then show ?thesis by (subst djb2_loop.simps) simp
  qed
qed

lemma djb2_step_unat:
  "unat ((push_bit 5 h + h) XOR (ucast (c :: 16 word) :: 32 word))
     = ((push_bit 5 (unat h) + unat h) XOR unat c) mod 2 ^ 32"
proof -
  have a: "unat ((push_bit 5 h + h) XOR (ucast c :: 32 word))
          = unat (push_bit 5 h + h) XOR unat (ucast c :: 32 word)"
    by (simp add: unsigned_xor_eq)
  have b: "unat (ucast c :: 32 word) = take_bit 32 (unat c)"
    by (simp add: unsigned_ucast_eq)
  have c: "unat (push_bit 5 h + h) = take_bit 32 (push_bit 5 (unat h) + unat h)"
    by (simp add: unat_word_ariths unsigned_push_bit_eq take_bit_eq_mod mod_simps)
  have d: "(x XOR y) mod 2 ^ 32 = take_bit 32 x XOR take_bit 32 y" for x y :: nat
    by (simp only: take_bit_eq_mod [symmetric] take_bit_xor)
  show ?thesis
    unfolding a b c d by simp
qed

lemma djb2_fold_unat:
  "unat (fold (\<lambda>c h. (push_bit 5 h + h) XOR ucast c) s (h :: 32 word))
     = fold (\<lambda>c h. ((push_bit 5 h + h) XOR unat c) mod 2 ^ 32) (s :: jsstring) (unat h)"
  by (induction s arbitrary: h) (simp_all add: djb2_step_unat)

lemma toString16_length: "n < 16 ^ Suc k \<Longrightarrow> length (toString16 n) \<le> Suc k"
proof (induction k arbitrary: n)
  case 0
  then show ?case by (subst toString16.simps) simp
next
  case (Suc k)
  show ?case
  proof (cases "n < 16")
    case True
    then show ?thesis by (subst toString16.simps) simp
  next
    case False
    from Suc.prems have "n div 16 < 16 ^ Suc k"
      by (simp add: less_mult_imp_div_less)
    from Suc.IH [OF this] False show ?thesis
      by (subst toString16.simps) simp
  qed
qed

lemma hex_fixed_zero: "hex_fixed k 0 = replicate k (hexDigit 0)"
  by (induction k) (simp_all add: replicate_append_same)

lemma padStart_toString16:
  "n < 16 ^ Suc k \<Longrightarrow> padStart (Suc k) (str ''0'') (toString16 n) = hex_fixed (Suc k) n"
proof (induction k arbitrary: n)
  case 0
  then show ?case
    by (subst toString16.simps) (simp add: padStart_def)
next
  case (Suc k)
  have pad: "padStart m (str ''0'') s = replicate (m - length s) (hexDigit 0) @ s" for m s
    by (simp add: padStart_def str_def hexDigit_def)
  show ?case
  proof (cases "n < 16")
    case True
    then have "n div 16 = 0" by simp
    with True show ?thesis
      apply (subst toString16.simps)
      apply (simp add: pad hex_fixed_zero replicate_append_same)
      done
  next
    case False
    from Suc.prems have lt: "n div 16 < 16 ^ Suc k"
      by (simp add: less_mult_imp_div_less)
    have len: "length (toString16 (n div 16)) \<le> Suc k"
      by (rule toString16_length [OF lt])
    have "padStart (Suc (Suc k)) (str ''0'') (toString16 n)
            = padStart (Suc k) (str ''0'') (toString16 (n div 16)) @ [hexDigit (n mod 16)]"
      using False len by (subst toString16.simps) (simp add: pad Suc_diff_le)
    then show ?thesis using Suc.IH [OF lt] by simp
  qed
qed

lemma hex_fixed_length: "length (hex_fixed k n) = k"
  by (induction k arbitrary: n) simp_all

lemma hexDigit_in: "d < 16 \<Longrightarrow> hexDigit d \<in> set (str ''0123456789abcdef'')"
  unfolding hexDigit_def by (rule nth_mem) (simp add: str_def)

lemma hex_fixed_set: "set (hex_fixed k n) \<subseteq> set (str ''0123456789abcdef'')"
  by (induction k arbitrary: n) (auto simp: hexDigit_in)

section \<open>Hashing and rewriting of node fields\<close>

lemma insert_by_map:
  assumes "\<And>x y. cmp (f x) (f y) = cmp x y"
  shows "insert_by cmp (f x) (map f ys) = map f (insert_by cmp x ys)"
  by (induction ys) (simp_all add: assms)

lemma sort_by_map:
  assumes "\<And>x y. cmp (f x) (f y) = cmp x y"
  shows "sort_by cmp (map f xs) = map f (sort_by cmp xs)"
  using assms by (induction xs) (simp_all add: sort_by_def insert_by_map)

lemma props_map_props [simp]: "props (map_props g n) = g (props n)"
  by (cases n) simp

lemma children_map_props [simp]:
  "children (map_props g n) = map_option (map (map_props g)) (children n)"
  by (cases n) simp


lemma childCompare_map_props:
  assumes "\<And>p. bbox (g p) = bbox p"
  shows "childCompare (map_props g x) (map_props g y) = childCompare x y"
  by (simp add: childCompare_def Let_def assms)

lemma hashNodeDeep_map_props:
  assumes bb: "\<And>p. bbox (g p) = bbox p"
  shows "(\<And>n. hashNodeShallow (map_props g n) opts = hashNodeShallow n opts)
         \<Longrightarrow> hashNodeDeep (map_props g n) opts = hashNodeDeep n opts"
proof (induction n opts rule: hashNodeDeep.induct)
  case (1 node options)
  note sh = "1.prems"
  show ?case
  proof (cases "children node")
    case None
    then show ?thesis
      by (simp add: hashNodeDeep.simps [of node] hashNodeDeep.simps [of "map_props g node"] sh)
  next
    case (Some cs)
    show ?thesis
    proof (cases "cs = []")
      case True
      with Some show ?thesis
        by (simp add: hashNodeDeep.simps [of node] hashNodeDeep.simps [of "map_props g node"] sh)
    next
      case False
      have IH: "hashNodeDeep (map_props g c) options = hashNodeDeep c options"
        if "c \<in> set cs" for c
        using "1.IH" [OF refl Some _ refl _ sh, of c] False that by simp
      have srt: "sort_by childCompare (map (map_props g) cs)
                   = map (map_props g) (sort_by childCompare cs)"
        by (rule sort_by_map) (rule childCompare_map_props [OF bb])
      have meq: "map (\<lambda>child. hashNodeDeep child options) (map (map_props g) (sort_by childCompare cs))
              = map (\<lambda>child. hashNodeDeep child options) (sort_by childCompare cs)"
        unfolding map_map by (rule map_cong) (simp_all add: IH)
      have "hashNodeDeep (map_props g node) options
              = sha256Sync (hashNodeShallow node options @ str ''|c:[''
                  @ join (str '','') (map (\<lambda>child. hashNodeDeep child options)
                       (sort_by childCompare (map (map_props g) cs))) @ str '']'')"
        using Some False by (simp add: hashNodeDeep.simps [of "map_props g node"] sh)
      also have "\<dots> = hashNodeDeep node options"
        using Some False by (simp only: srt meq) (simp add: hashNodeDeep.simps [of node])
      finally show ?thesis .
    qed
  qed
qed

section \<open>The stable sort under a consistent comparator\<close>




lemma mset_insert_by [simp]: "mset (insert_by cmp x ys) = add_mset x (mset ys)"
  by (induction ys) simp_all

lemma mset_sort_by [simp]: "mset (sort_by cmp xs) = mset xs"
  by (induction xs) (simp_all add: sort_by_def)


lemma sort_by_Nil [simp]: "sort_by cmp [] = []"
  by (simp add: sort_by_def)







section \<open>Claims about the digest and the fingerprints\<close>

lemmas digest_eval = sha256Sync_def djb2Hash_def djb2_loop.simps toString16.simps padStart_def hexDigit_def str_def

text \<open>
  C4. The synchronous short digest of a string is the djb2-style fold over its UTF-16 code
  units (start at 5381, each unit \<open>c\<close> updates \<open>h\<close> to \<open>((h << 5) + h) XOR c\<close>, everything
  modulo \<open>2^32\<close>), printed as exactly 8 lowercase hexadecimal characters; on \<open>hello\<close> it
  is \<open>0a9cede7\<close>.
\<close>

theorem sha256Sync_djb2_hex8:
  "sha256Sync s = hex_fixed 8 (djb2_spec s)
   \<and> length (sha256Sync s) = 8
   \<and> set (sha256Sync s) \<subseteq> set (str ''0123456789abcdef'')
   \<and> sha256Sync (str ''hello'') = str ''0a9cede7''"
proof -
  have lt: "unat (w :: 32 word) < 16 ^ Suc 7" for w
    using unsigned_less [of w, where ?'a = nat] by simp
  have eq: "sha256Sync t = hex_fixed 8 (djb2_spec t)" for t
    using padStart_toString16 [OF lt, of "djb2_loop t 0 5381"]
    by (simp add: sha256Sync_def djb2Hash_def djb2_spec_def djb2_loop_fold djb2_fold_unat)
  have golden: "sha256Sync (str ''hello'') = str ''0a9cede7''"
    by (simp add: digest_eval)
  show ?thesis
    using golden by (simp add: eq hex_fixed_length hex_fixed_set)
qed

text \<open>
  C6. Two captures that differ only in \<open>timestamp_ms\<close>, \<open>url\<close> or the compiler fields have
  the same full fingerprint and the same layout fingerprint.
\<close>

theorem fingerprints_ignore_metadata:
  "fingerprintCapture (c\<lparr>url := u, timestamp_ms := t, compiler := k\<rparr>) = fingerprintCapture c
   \<and> fingerprintLayout (c\<lparr>url := u, timestamp_ms := t, compiler := k\<rparr>) = fingerprintLayout c"
  by (simp add: fingerprintCapture_def fingerprintLayout_def)

lemma hashNodeShallow_drop_empty:
  "hashNodeShallow (map_props drop_empty_props n) opts = hashNodeShallow n opts"
  by (cases "text_signal (props n)")
     (auto simp: Let_def hashNodeShallow_def nodeToHashInput_def text_hash_of_def drop_empty_props_def
        absent_if_empty_def)

lemma hashNodeShallow_erase:
  "includeText opts = Some False \<Longrightarrow> includeName opts = Some False \<Longrightarrow>
   hashNodeShallow (map_props erase_text_name_props n) opts = hashNodeShallow n opts"
  by (simp add: Let_def hashNodeShallow_def nodeToHashInput_def text_hash_of_def erase_text_name_props_def
        resolve_hash_options_def)

text \<open>
  C10. The shallow hash treats an empty-string \<open>semantic\<close>, \<open>name_hash\<close> or \<open>text.hash\<close> as
  an absent one, under every choice of hash options; consequently replacing all such
  empty fields of a capture by absent ones changes neither fingerprint.
\<close>

theorem empty_string_fields_as_absent:
  "hashNodeShallow (UINode (p\<lparr>semantic := Some []\<rparr>) cs) opts
     = hashNodeShallow (UINode (p\<lparr>semantic := None\<rparr>) cs) opts
   \<and> hashNodeShallow (UINode (p\<lparr>name_hash := Some []\<rparr>) cs) opts
     = hashNodeShallow (UINode (p\<lparr>name_hash := None\<rparr>) cs) opts
   \<and> hashNodeShallow (UINode (p\<lparr>text_signal := Some (t\<lparr>ts_hash := Some []\<rparr>)\<rparr>) cs) opts
     = hashNodeShallow (UINode (p\<lparr>text_signal := Some (t\<lparr>ts_hash := None\<rparr>)\<rparr>) cs) opts
   \<and> fingerprintCapture (c\<lparr>root := map_props drop_empty_props (root c)\<rparr>) = fingerprintCapture c
   \<and> fingerprintLayout (c\<lparr>root := map_props drop_empty_props (root c)\<rparr>) = fingerprintLayout c"
proof -
  have deep: "hashNodeDeep (map_props drop_empty_props n) o' = hashNodeDeep n o'" for n o'
    by (rule hashNodeDeep_map_props)
       (simp_all add: drop_empty_props_def hashNodeShallow_drop_empty)
  show ?thesis
    by (simp add: fingerprintCapture_def fingerprintLayout_def deep)
       (simp add: Let_def hashNodeShallow_def nodeToHashInput_def text_hash_of_def)
qed

text \<open>
  C7, as amended. Two captures that differ only in the \<open>text.hash\<close> and \<open>name_hash\<close> values
  of some nodes have the same layout fingerprint. (Their full fingerprints need not
  differ: only the first 16 code units of either hash enter the digest.)
\<close>

theorem layout_ignores_text_and_name:
  "differ_only_in_text_name a b \<Longrightarrow> fingerprintLayout a = fingerprintLayout b"
proof -
  assume d: "differ_only_in_text_name a b"
  let ?o = "\<lparr>includeText = Some False, includeName = Some False, includeZ = None\<rparr>"
  have deep: "hashNodeDeep (map_props erase_text_name_props n) ?o = hashNodeDeep n ?o" for n
    by (rule hashNodeDeep_map_props)
       (simp_all add: erase_text_name_props_def hashNodeShallow_erase)
  from d have r: "map_props erase_text_name_props (root a) = map_props erase_text_name_props (root b)"
    and v: "viewport a = viewport b"
    by (auto simp: differ_only_in_text_name_def dest: arg_cong [where f = viewport])
  have "hashNodeDeep (root a) ?o = hashNodeDeep (root b) ?o"
    using deep [of "root a"] deep [of "root b"] r by simp
  then show ?thesis
    by (simp add: fingerprintLayout_def v)
qed

theorem layout_ignores_text_and_name_witness:
  "differ_only_in_text_name (textCapture (str ''0123456789abcdefA'')) (textCapture (str ''0123456789abcdefB''))
   \<and> fingerprintLayout (textCapture (str ''0123456789abcdefA''))
       = fingerprintLayout (textCapture (str ''0123456789abcdefB''))"
proof -
  have d: "differ_only_in_text_name (textCapture (str ''0123456789abcdefA''))
             (textCapture (str ''0123456789abcdefB''))"
    by (simp add: differ_only_in_text_name_def textCapture_def makeCapture_def makeNode_def
          erase_text_name_props_def)
  from d layout_ignores_text_and_name [OF d] show ?thesis by simp
qed

text \<open>
  The claim C7 as stated also demands different full fingerprints. Two text hashes that
  differ only behind their 16th code unit give equal full fingerprints.
\<close>

theorem full_fingerprint_equal_counterexample:
  "differ_only_in_text_name (textCapture (str ''0123456789abcdefA'')) (textCapture (str ''0123456789abcdefB''))
   \<and> textCapture (str ''0123456789abcdefA'') \<noteq> textCapture (str ''0123456789abcdefB'')
   \<and> \<not> (fingerprintCapture (textCapture (str ''0123456789abcdefA''))
          \<noteq> fingerprintCapture (textCapture (str ''0123456789abcdefB'')))"
proof -
  have d: "differ_only_in_text_name (textCapture (str ''0123456789abcdefA''))
             (textCapture (str ''0123456789abcdefB''))"
    by (simp add: differ_only_in_text_name_def textCapture_def makeCapture_def makeNode_def
          erase_text_name_props_def)
  have n: "textCapture (str ''0123456789abcdefA'') \<noteq> textCapture (str ''0123456789abcdefB'')"
    by (simp add: textCapture_def makeCapture_def makeNode_def str_def)
  have s: "hashNodeShallow (root (textCapture (str ''0123456789abcdefA''))) no_hash_options
         = hashNodeShallow (root (textCapture (str ''0123456789abcdefB''))) no_hash_options"
    by (simp add: textCapture_def makeCapture_def makeNode_def hashNodeShallow_def Let_def
          nodeToHashInput_def text_hash_of_def slice0_def str_def)
  have e: "fingerprintCapture (textCapture (str ''0123456789abcdefA''))
         = fingerprintCapture (textCapture (str ''0123456789abcdefB''))"
    using s by (simp add: fingerprintCapture_def hashNodeDeep.simps)
       (simp add: textCapture_def makeCapture_def)
  from d n e show ?thesis by simp
qed

section \<open>Claims about similarity and text signals\<close>

text \<open>
  C1. The claim bounds \<open>nodeSimilarity\<close> by 1 and gives a matching semantic hint the weight
  2. The code adds 2 to the score of such a pair and nothing to the weights: the button of
  the similarity tests, compared with itself, scores \<open>8 / 7\<close>.
\<close>

theorem nodeSimilarity_above_one:
  "nodeSimilarity submitButton submitButton = 8 / 7 \<and> \<not> nodeSimilarity submitButton submitButton \<le> 1"
  by (simp add: nodeSimilarity_def submitButton_def makeNode_def bboxSimilarity_def
        text_hash_of_def str_def Let_def)

text \<open>
  C8, as amended. The kind of the signal generated from a raw string is \<open>none\<close> when the
  normalised text is empty; otherwise it is \<open>mixed\<close> when the raw string has two or more
  blank-line breaks; otherwise it follows the length of the normalised text (at most 20
  \<open>short\<close>, at most 150 \<open>sentence\<close>, longer \<open>paragraph\<close>).
\<close>

theorem text_kind_of_signal:
  "ts_kind (createTextSignalSync rawText) =
     (if length (normalizeText rawText) = 0 then TK_none
      else if isMixedContent rawText then TK_mixed
      else if length (normalizeText rawText) \<le> 20 then TK_short
      else if length (normalizeText rawText) \<le> 150 then TK_sentence
      else TK_paragraph)"
  by (simp add: createTextSignalSync_def classifyText_def Let_def
        TEXT_THRESHOLDS_SHORT_def TEXT_THRESHOLDS_SENTENCE_def)

text \<open>
  The claim C8 as stated classifies every raw string with two blank-line breaks as
  \<open>mixed\<close>. Two blank lines around a zero-width space are two breaks, and the signal is
  \<open>none\<close>, the normalised text being empty.
\<close>

theorem blank_lines_not_mixed_counterexample:
  "count_breaks [0x0A, 0x0A, 0x200B, 0x0A, 0x0A] = 2
   \<and> isMixedContent [0x0A, 0x0A, 0x200B, 0x0A, 0x0A]
   \<and> ts_kind (createTextSignalSync [0x0A, 0x0A, 0x200B, 0x0A, 0x0A]) = TK_none
   \<and> ts_kind (createTextSignalSync [0x0A, 0x0A, 0x200B, 0x0A, 0x0A]) \<noteq> TK_mixed"
  by (simp add: createTextSignalSync_def isMixedContent_def normalizeText_def
        INVISIBLE_CHARS_def is_space_def trim_def toLowerCase_def)

section \<open>Reordered siblings\<close>










subsection \<open>Evaluating fingerprints\<close>















section \<open>Diffing a capture with itself\<close>

subsection \<open>No pair is more similar than a node is to itself\<close>









subsection \<open>The sorted candidates and the greedy loop\<close>







lemma diag_set_append [simp]: "diag_set (xs @ ys) = diag_set xs \<union> diag_set ys"
  by (auto simp: diag_set_def)

lemma diag_set_single [simp]: "diag_set [(i, j, s)] = (if i = j then {i} else {})"
  by (auto simp: diag_set_def)

lemma diag_set_Nil [simp]: "diag_set [] = {}"
  by (simp add: diag_set_def)








section \<open>Validation and parsing\<close>

subsection \<open>Where the issues of a node point\<close>

lemma under_issue_app [simp]: "below_path p (issue (p @ q) e r m)"
  by (simp add: below_path_def issue_def)

lemma under_issue_self [simp]: "below_path p (issue p e r m)"
  by (simp add: below_path_def issue_def)

lemma under_prefix: "below_path (p @ q) i \<Longrightarrow> below_path p i"
  unfolding below_path_def by (metis append_eq_conv_conj append_take_drop_id append.assoc)

lemma role_issues_under:
  assumes "i \<in> set (role_issues node p)"
  shows "below_path p i"
proof (cases "prop_of node ''role''")
  case None
  with assms show ?thesis by (simp add: role_issues_def)
next
  case (Some v)
  with assms show ?thesis
    by (cases v) (auto simp: role_issues_def split: if_splits)
qed

lemma bbox_issues_under:
  assumes "i \<in> set (bbox_issues node p)"
  shows "below_path p i"
proof (cases "prop_of node ''bbox''")
  case None
  with assms show ?thesis by (simp add: bbox_issues_def)
next
  case (Some v)
  with assms show ?thesis
    by (cases v) (auto simp: bbox_issues_def split: if_splits)
qed

lemma text_issues_under:
  assumes "i \<in> set (text_issues node p)"
  shows "below_path p i"
proof (cases "prop_of node ''text''")
  case None
  with assms show ?thesis by (simp add: text_issues_def)
next
  case (Some v)
  with assms show ?thesis
    by (cases v) (auto simp: text_issues_def split: if_splits)
qed

lemma own_issues_under: "i \<in> set (own_issues node p) \<Longrightarrow> below_path p i"
  by (auto simp: own_issues_def split: if_splits
      dest: role_issues_under bbox_issues_under text_issues_under)

lemma validate_under:
  "i \<in> set (snd (validateNode data p depth limits st)) \<Longrightarrow> i \<in> set (snd st) \<or> below_path p i"
  "i \<in> set (snd (validateChildren cs k p depth limits st)) \<Longrightarrow> i \<in> set (snd st) \<or> below_path p i"
proof (induction data p depth limits st and cs k p depth limits st
       rule: validateNode_validateChildren.induct)
  case (1 data p depth limits st)
  show ?case
  proof (cases "int (fst st + 1) > maxNodes limits \<or> int depth > maxDepth limits")
    case True
    with "1.prems" show ?thesis
      by (auto simp: validateNode.simps Let_def split: if_splits)
  next
    case False
    show ?thesis
    proof (cases data)
      case (JObj node)
      show ?thesis
      proof (cases "prop_of node ''children''")
        case None
        with "1.prems" False JObj show ?thesis
          by (auto simp: validateNode.simps Let_def
              dest: own_issues_under)
      next
        case (Some v)
        show ?thesis
        proof (cases v)
          case (JArr cs)
          have "i \<in> set (snd (validateChildren cs 0 p depth limits
                  (fst st + 1, snd st @ own_issues node p)))"
            using "1.prems" False JObj Some JArr
            by (simp add: validateNode.simps Let_def)
          from "1.IH" [OF refl refl _ _ JObj Some JArr this] False
          show ?thesis by (auto dest: own_issues_under)
        qed (use "1.prems" False JObj Some in
              \<open>auto simp: validateNode.simps Let_def
                 dest: own_issues_under\<close>)
      qed
    qed (use "1.prems" False in
          \<open>auto simp: validateNode.simps Let_def\<close>)
  qed
next
  case (2 i p depth limits st)
  then show ?case by simp
next
  case (3 c cs k p depth limits st)
  let ?st' = "validateNode c (p @ str ''.children['' @ decimal k @ str '']'') (depth + 1) limits st"
  have a: "i \<in> set (snd st) \<or> below_path p i" if "i \<in> set (snd ?st')"
    using "3.IH"(1) [OF that] by (auto dest: under_prefix)
  show ?case
  proof (cases "length (snd ?st') > 100")
    case True
    with "3.prems" a show ?thesis by (simp add: Let_def)
  next
    case False
    with "3.prems" have "i \<in> set (snd (validateChildren cs (k + 1) p depth limits ?st'))"
      by (simp add: Let_def)
    from "3.IH"(2) [OF refl _ this] False a show ?thesis by auto
  qed
qed

subsection \<open>The version issue\<close>

lemma find_append:
  "List.find P (xs @ ys) = (case List.find P xs of Some x \<Rightarrow> Some x | None \<Rightarrow> List.find P ys)"
  by (induction xs) simp_all

lemma root_not_version: "below_path (str ''root'') i \<Longrightarrow> i_path i \<noteq> str ''version''"
  by (auto simp: below_path_def str_def)

lemma viewport_issues_path:
  assumes "i \<in> set (viewport_issues obj)"
  shows "i_path i \<noteq> str ''version''"
proof (cases "prop_of obj ''viewport''")
  case None
  with assms show ?thesis by (auto simp: viewport_issues_def issue_def str_def)
next
  case (Some v)
  with assms show ?thesis
    by (cases v) (auto simp: viewport_issues_def issue_def str_def split: if_splits)
qed

lemma compiler_issues_path:
  assumes "i \<in> set (compiler_issues obj)"
  shows "i_path i \<noteq> str ''version''"
proof (cases "prop_of obj ''compiler''")
  case None
  with assms show ?thesis by (auto simp: compiler_issues_def issue_def str_def)
next
  case (Some v)
  with assms show ?thesis
    by (cases v) (auto simp: compiler_issues_def issue_def str_def split: if_splits)
qed

lemma root_issues_path:
  assumes "i \<in> set (root_issues obj lims)"
  shows "i_path i \<noteq> str ''version''"
proof (cases "prop_of obj ''root''")
  case None
  with assms show ?thesis by (auto simp: root_issues_def issue_def str_def)
next
  case (Some r)
  have v: "i_path i \<noteq> str ''version''"
    if "i \<in> set (snd (validateNode r' (str ''root'') 0 lims (0, [])))" for r'
    using validate_under(1) [OF that] by (auto dest: root_not_version)
  have ne: "str ''root'' \<noteq> str ''version''" by (simp add: str_def)
  from assms Some show ?thesis
    by (cases r) (auto simp: root_issues_def issue_def ne dest: v)
qed

text \<open>Behind the issues of the version, no issue has the path \<open>version\<close>.\<close>

lemma validateCapture_obj:
  "\<exists>rest. validateCapture (JObj obj) limits = version_issues obj @ rest
          \<and> (\<forall>i\<in>set rest. \<not> is_version_issue i)"
proof -
  let ?rest = "(if is_string (prop_of obj ''url'') then []
             else [issue (str ''url'') (str ''string'') (typeOf (prop_of obj ''url''))
                     (str ''Capture url is required'')])
          @ (if is_number (prop_of obj ''timestamp_ms'') then []
             else [issue (str ''timestamp_ms'') (str ''number'')
                     (typeOf (prop_of obj ''timestamp_ms''))
                     (str ''Capture timestamp_ms is required'')])
          @ viewport_issues obj
          @ compiler_issues obj
          @ root_issues obj (resolve_limits limits)"
  have "validateCapture (JObj obj) limits = version_issues obj @ ?rest"
    by (simp add: validateCapture_def)
  moreover have "\<forall>i\<in>set ?rest. \<not> is_version_issue i"
    by (auto simp: is_version_issue_def issue_def str_def
        dest: viewport_issues_path compiler_issues_path root_issues_path)
  ultimately show ?thesis by blast
qed

lemma find_none: "\<forall>i\<in>set xs. \<not> P i \<Longrightarrow> List.find P xs = None"
  by (simp add: find_None_iff)

lemma version_error_code:
  "map_option e_code (version_error (validateCapture d limits))
     = (if version_present_unsupported d then Some WS_UNSUPPORTED_VERSION else None)"
proof (cases d)
  case (JObj obj)
  obtain rest where v: "validateCapture (JObj obj) limits = version_issues obj @ rest"
    and r: "\<forall>i\<in>set rest. \<not> is_version_issue i"
    using validateCapture_obj by blast
  have fr: "List.find is_version_issue rest = None"
    by (rule find_none [OF r])
  show ?thesis
  proof (cases "prop_of obj ''version''")
    case None
    then show ?thesis
      by (simp add: JObj v version_error_def find_append fr version_issues_def
            is_version_issue_def issue_def)
  next
    case (Some w)
    then show ?thesis
      by (cases w)
         (auto simp: JObj v version_error_def find_append fr version_issues_def
            is_version_issue_def issue_def dquote_def str_def)
  qed
qed (simp_all add: validateCapture_def version_error_def is_version_issue_def issue_def str_def)

lemma unsupported_has_issues:
  "version_present_unsupported d \<Longrightarrow> validateCapture d limits \<noteq> []"
  using version_error_code [of d limits] by (auto simp: version_error_def)

text \<open>
  C5, as amended. When the text parses, \<open>parseCapture\<close> classifies with the priority
  Version, Limit, General: it fails with \<open>WS_UNSUPPORTED_VERSION\<close> exactly when the parsed
  value is an object whose \<open>version\<close> member is present and is not the string \<open>0.1\<close>
  (another string, or a value that is no string); otherwise with \<open>WS_LIMIT_EXCEEDED\<close> when
  the message of some issue names an exceeded limit; otherwise with \<open>WS_INVALID_CAPTURE\<close>
  when there is any issue; otherwise it succeeds.
\<close>

theorem parseCapture_classification:
  assumes "JSON_parse t = Inr d"
  shows "result_code (parseCapture JSON_parse t limits)
           = (if version_present_unsupported d then Some WS_UNSUPPORTED_VERSION
              else if list_ex is_limit_issue (validateCapture d limits) then Some WS_LIMIT_EXCEEDED
              else if validateCapture d limits \<noteq> [] then Some WS_INVALID_CAPTURE
              else None)"
proof (cases "version_present_unsupported d")
  case True
  then obtain e where e: "version_error (validateCapture d limits) = Some e"
    and c: "e_code e = WS_UNSUPPORTED_VERSION"
    using version_error_code [of d limits] by auto
  from True have "validateCapture d limits \<noteq> []" by (rule unsupported_has_issues)
  with True e c assms show ?thesis
    by (simp add: parseCapture_def Let_def)
next
  case False
  then have n: "version_error (validateCapture d limits) = None"
    using version_error_code [of d limits] by simp
  show ?thesis
  proof (cases "List.find is_limit_issue (validateCapture d limits)")
    case None
    then have "\<not> list_ex is_limit_issue (validateCapture d limits)"
      by (simp add: find_None_iff list_ex_iff)
    with None False n assms show ?thesis
      by (simp add: parseCapture_def Let_def)
  next
    case (Some l)
    then have "is_limit_issue l \<and> l \<in> set (validateCapture d limits)"
      by (metis find_Some_iff nth_mem)
    then have "list_ex is_limit_issue (validateCapture d limits)"
      by (auto simp: list_ex_iff)
    moreover from this have "validateCapture d limits \<noteq> []" by auto
    ultimately show ?thesis using Some False n assms
      by (simp add: parseCapture_def Let_def)
  qed
qed


subsection \<open>A sample capture\<close>

lemma of_char_word_inject:
  "(of_nat (of_char c) :: 16 word) = of_nat (of_char d) \<longleftrightarrow> c = d"
proof
  assume "(of_nat (of_char c) :: 16 word) = of_nat (of_char d)"
  then have "unat (of_nat (of_char c) :: 16 word) = unat (of_nat (of_char d) :: 16 word)"
    by simp
  moreover have "of_char e < (65536 :: nat)" for e
    using nat_of_char_less_256 [of e] by linarith
  ultimately have "(of_char c :: nat) = of_char d"
    by (simp add: unat_of_nat take_bit_nat_eq_self)
  then show "c = d" by simp
qed simp

lemma str_inject [simp]: "str a = str b \<longleftrightarrow> a = b"
proof -
  have "inj (\<lambda>c. of_nat (of_char c) :: 16 word)"
    by (rule injI) (simp add: of_char_word_inject)
  then show ?thesis
    unfolding str_def by (rule inj_map_eq_map)
qed

lemma upt_0_4: "[0..<4] = [0, 1, 2, 3]"
  by (simp add: eval_nat_numeral)

lemmas validate_eval = upt_0_4 validateCapture_def version_issues_def viewport_issues_def
  compiler_issues_def root_issues_def prop_of_def validateNode.simps own_issues_def
  role_issues_def bbox_issues_def text_issues_def VALID_ROLES_def resolve_limits_def
  DEFAULT_LIMITS_def no_limits_def sample_members_def

lemma sample_rest_valid:
  "validateCapture (JObj ((str ''version'', v) # sample_members)) no_limits
     = version_issues ((str ''version'', v) # sample_members)"
  by (simp add: validate_eval)


lemma sample_rest_valid_no_version:
  "validateCapture (JObj sample_members) no_limits = version_issues sample_members"
  by (simp add: validate_eval)


theorem parseCapture_classification_witness:
  "parsed_as sample_version99 (sample_text (version_member (dquote @ str ''99.0'' @ dquote)))
     = Inr sample_version99
   \<and> result_code (parseCapture (parsed_as sample_version99)
         (sample_text (version_member (dquote @ str ''99.0'' @ dquote))) no_limits)
       = Some WS_UNSUPPORTED_VERSION"
proof -
  have p: "parsed_as sample_version99 t = Inr sample_version99" for t
    by (simp add: parsed_as_def)
  have u: "version_present_unsupported sample_version99"
    by (simp add: sample_version99_def prop_of_def)
  from parseCapture_classification [where JSON_parse = "parsed_as sample_version99"
      and t = "sample_text (version_member (dquote @ str ''99.0'' @ dquote))"
      and d = sample_version99 and limits = no_limits]
    u p show ?thesis by simp
qed

lemma version_message_no_limit:
  "\<not> is_limit_issue (issue p e r (str ''Capture version is required''))"
  by (simp add: is_limit_issue_def issue_def str_def)

text \<open>
  The claim C5 as stated sends every issue at the path \<open>version\<close> whose received value is
  not \<open>"0.1"\<close> to \<open>WS_UNSUPPORTED_VERSION\<close>, and only a string version there. Without a
  \<open>version\<close> member the issue receives \<open>undefined\<close> and the failure is
  \<open>WS_INVALID_CAPTURE\<close>; with the number 2 as version the failure is
  \<open>WS_UNSUPPORTED_VERSION\<close>.
\<close>

theorem version_classification_counterexample:
  "validateCapture sample_no_version no_limits
     = [issue (str ''version'') (dquote @ str ''0.1'' @ dquote) (str ''undefined'')
          (str ''Capture version is required'')]
   \<and> str ''undefined'' \<noteq> dquote @ str ''0.1'' @ dquote
   \<and> result_code (parseCapture (parsed_as sample_no_version) (sample_text []) no_limits)
       = Some WS_INVALID_CAPTURE
   \<and> prop_of ((str ''version'', JNum 2) # sample_members) ''version'' = Some (JNum 2)
   \<and> result_code (parseCapture (parsed_as sample_version_number)
         (sample_text (version_member (str ''2''))) no_limits)
       = Some WS_UNSUPPORTED_VERSION"
proof -
  have v: "validateCapture sample_no_version no_limits
     = [issue (str ''version'') (dquote @ str ''0.1'' @ dquote) (str ''undefined'')
          (str ''Capture version is required'')]"
    by (simp add: sample_no_version_def sample_rest_valid_no_version)
       (simp add: version_issues_def prop_of_def sample_members_def)
  have n: "str ''undefined'' \<noteq> dquote @ str ''0.1'' @ dquote"
    by (simp add: dquote_def str_def)
  have a: "result_code (parseCapture (parsed_as sample_no_version) (sample_text []) no_limits)
       = Some WS_INVALID_CAPTURE"
    by (simp add: parseCapture_def parsed_as_def v version_error_def is_version_issue_def
          version_message_no_limit)
       (simp add: issue_def)
  have w: "validateCapture sample_version_number no_limits
     = [issue (str ''version'') (dquote @ str ''0.1'' @ dquote) (str ''number'')
          (str ''Capture version is required'')]"
    by (simp add: sample_version_number_def sample_rest_valid)
       (simp add: version_issues_def prop_of_def)
  have b: "result_code (parseCapture (parsed_as sample_version_number)
         (sample_text (version_member (str ''2''))) no_limits)
       = Some WS_UNSUPPORTED_VERSION"
    by (simp add: parseCapture_def parsed_as_def w version_error_def is_version_issue_def)
       (simp add: issue_def dquote_def str_def)
  have c: "prop_of ((str ''version'', JNum 2) # sample_members) ''version'' = Some (JNum 2)"
    by (simp add: prop_of_def)
  from v n a b c show ?thesis by simp
qed


end
